theory Spec2Isabelle
  imports Complex_Main
begin

section \<open>MayaviViewer.plot (fipy/viewers/mayaviViewer/mayaviViewer.py)\<close>

text \<open>
  The viewer object holds the three file names built in \<open>__init__\<close> and the two
  sub-viewers, each of which is \<open>None\<close> when its constructor raised \<open>TypeError\<close>.
  A sub-viewer is kept abstract (type \<open>'v\<close>): \<open>plot\<close> only tests it against
  \<open>None\<close> and calls its own \<open>plot\<close> method.
\<close>

record 'v viewer =
  vtkcellfname :: string
  vtkfacefname :: string
  vtklockfname :: string
  vtkCellViewer :: "'v option"
  vtkFaceViewer :: "'v option"

text \<open>
  What \<open>plot\<close> does to the outside world, in program order: a call of a
  sub-viewer's \<open>plot(filename=...)\<close> (which writes the VTK file of that name), opening
  the lock file for writing (which creates it), writing into it, closing it, and
  printing a line. Each of these calls is taken to return: \<open>plot\<close> itself raises
  nothing and catches nothing, so an exception of a callee would leave \<open>plot\<close> at
  that call.
\<close>

datatype event =
    CellPlot string
  | FacePlot string
  | LockOpen string
  | LockWrite string
  | LockClose
  | Print string

text \<open>
  What \<open>plot\<close> reads from the outside world: \<open>time_time env k\<close> is the value of the
  \<open>k\<close>-th call of \<open>time.time()\<close> (call 0 sets \<open>start\<close>), and \<open>isfile_lock env k\<close> is
  the answer of the \<open>k\<close>-th call of \<open>os.path.isfile(self.vtklockfname)\<close>. The daemon
  process removes the lock file on its own schedule, so each poll has an answer of its own.
\<close>

record env =
  time_time :: "nat \<Rightarrow> real"
  isfile_lock :: "nat \<Rightarrow> bool"

text \<open>The body of the \<open>if not os.path.isfile(...)\<close> branch, lines 159 to 166.\<close>

definition write_files :: "'v viewer \<Rightarrow> string option \<Rightarrow> event list" where
  "write_files self filename =
     (case vtkCellViewer self of None \<Rightarrow> [] | Some _ \<Rightarrow> [CellPlot (vtkcellfname self)]) @
     (case vtkFaceViewer self of None \<Rightarrow> [] | Some _ \<Rightarrow> [FacePlot (vtkfacefname self)]) @
     [LockOpen (vtklockfname self)] @
     (case filename of None \<Rightarrow> [] | Some f \<Rightarrow> [LockWrite f]) @
     [LockClose]"

text \<open>
  The \<open>while\<close> loop of line 157. Iteration \<open>k\<close> evaluates the condition with clock
  reading \<open>k + 1\<close> (Python's \<open>and\<close> reads the clock before it looks at \<open>plotted\<close>)
  and, inside the body, makes poll number \<open>k\<close>. The loop is a busy wait that ends only
  when the clock says so or a poll finds no lock file, hence a partial function: \<open>None\<close>
  is a run that never leaves the loop.
\<close>

partial_function (option) poll ::
  "'v viewer \<Rightarrow> string option \<Rightarrow> env \<Rightarrow> real \<Rightarrow> nat \<Rightarrow> bool \<Rightarrow> event list
    \<Rightarrow> (bool \<times> event list) option" where
  "poll self filename e start k plotted out =
     (if time_time e (Suc k) - start < 10 \<and> \<not> plotted then
        (if \<not> isfile_lock e k
         then poll self filename e start (Suc k) True (out @ write_files self filename)
         else poll self filename e start (Suc k) plotted out)
      else Some (plotted, out))"

definition plot :: "'v viewer \<Rightarrow> string option \<Rightarrow> env \<Rightarrow> event list option" where
  "plot self filename e =
     (case poll self filename e (time_time e 0) 0 False [] of
        None \<Rightarrow> None
      | Some (plotted, out) \<Rightarrow>
          Some (if \<not> plotted then out @ [Print ''viewer: NOT READY''] else out))"

text \<open>
  The polling window of a run. \<open>in_window e k\<close> says that clock reading \<open>k + 1\<close>, the
  one the loop condition takes before poll \<open>k\<close>, is less than 10 seconds after
  \<open>start\<close>. Poll \<open>k\<close> is made when this holds up to \<open>k\<close> and the polls before it all
  found the lock file; the window ends at the first \<open>d\<close> where it fails.
\<close>

definition in_window :: "env \<Rightarrow> nat \<Rightarrow> bool" where
  "in_window e k \<longleftrightarrow> time_time e (Suc k) - time_time e 0 < 10"

section \<open>The initial distributions of examples/elphf/diffusion/input1D.py\<close>

text \<open>
  The doctest of \<open>input1D.py\<close> builds a mesh, creates the two substitutional fields,
  and sets their values with four calls of \<open>setValue\<close>. The classes it calls
  (\<open>Grid2D\<close>, the fields of \<open>elphf.makeFields\<close>) are not among the sources; they are
  modelled below, and the script itself is translated line by line. Numbers are exact
  rationals: \<open>0.3\<close> is \<open>3 / 10\<close>.
\<close>

record grid2D =
  dx :: rat
  dy :: rat
  nx :: nat
  ny :: nat

text \<open>
  Modelled from the spec: \<open>fipy.meshes.grid2D.Grid2D\<close> is missing. The mesh is an
  ordered set of cells, each with a volume; \<open>Grid2D(dx, dy, nx, ny)\<close> is the uniform
  mesh of \<open>nx\<close> by \<open>ny\<close> cells of size \<open>dx\<close> by \<open>dy\<close>, numbered row by row, and the
  centre of a cell is its midpoint.
\<close>

definition getNumberOfCells :: "grid2D \<Rightarrow> nat" where
  "getNumberOfCells mesh = nx mesh * ny mesh"

definition getCenter :: "grid2D \<Rightarrow> nat \<Rightarrow> rat \<times> rat" where
  "getCenter mesh i =
     ((of_nat (i mod nx mesh) + 1 / 2) * dx mesh, (of_nat (i div nx mesh) + 1 / 2) * dy mesh)"

definition getCellVolume :: "grid2D \<Rightarrow> nat \<Rightarrow> rat" where
  "getCellVolume mesh i = dx mesh * dy mesh"

text \<open>
  Modelled from the spec: \<open>Grid2D.getCells\<close> is missing. It returns the cells that
  pass the filter, in mesh order; a cell is named by its number.
\<close>

definition getCells :: "grid2D \<Rightarrow> (rat \<times> rat \<Rightarrow> bool) \<Rightarrow> nat list" where
  "getCells mesh flt = [i \<leftarrow> [0..<getNumberOfCells mesh]. flt (getCenter mesh i)]"

datatype error = ShapeMismatch

type_synonym cellVariable = "rat list"

text \<open>
  Modelled from the spec: the Field store is missing. \<open>create\<close> allocates one value
  per cell from an initial value given as a function of the cell;
  \<open>set_value(field, value, subset_of_cells=None)\<close> changes the listed cells if a subset
  is given and all cells otherwise, and a subset that names a cell the field does not have
  is a \<open>ShapeMismatch\<close>. Only the values are modelled: the caches of derived quantities
  that \<open>set_value\<close> also invalidates play no part in the values of the example.
\<close>

definition create :: "grid2D \<Rightarrow> (nat \<Rightarrow> rat) \<Rightarrow> cellVariable" where
  "create mesh initial = map initial [0..<getNumberOfCells mesh]"

definition setValue :: "cellVariable \<Rightarrow> rat \<Rightarrow> nat list option \<Rightarrow> error + cellVariable" where
  "setValue var v cells =
     (case cells of
        None \<Rightarrow> Inr (map (\<lambda>_. v) var)
      | Some cs \<Rightarrow>
          if list_all (\<lambda>i. i < length var) cs
          then Inr (foldl (\<lambda>xs i. xs[i := v]) var cs)
          else Inl ShapeMismatch)"

text \<open>Sequencing of calls that may fail: the first error ends the script.\<close>

definition and_then :: "error + 'a \<Rightarrow> ('a \<Rightarrow> error + 'b) \<Rightarrow> error + 'b" where
  "and_then r f = (case r of Inl e \<Rightarrow> Inl e | Inr x \<Rightarrow> f x)"

text \<open>
  The volume-weighted average of a field over the mesh: the sum of value times cell
  volume, divided by the total volume.
\<close>

definition volumeWeightedAverage :: "grid2D \<Rightarrow> cellVariable \<Rightarrow> rat" where
  "volumeWeightedAverage mesh var =
     (\<Sum>i \<leftarrow> [0..<length var]. var ! i * getCellVolume mesh i) /
     (\<Sum>i \<leftarrow> [0..<length var]. getCellVolume mesh i)"

text \<open>
  The script, lines 72 to 78 and 115 to 119:
  \<^verbatim>\<open>
  nx = 40; dx = 1.; ny = 1; dy = 1
  L = nx * dx
  mesh = Grid2D(dx = dx, dy = dy, nx = nx, ny = ny)
  setCells = mesh.getCells(filter = lambda cell: cell.getCenter()[0] > L/2)
  fields['substitutionals'][0].setValue(0.3)
  fields['substitutionals'][0].setValue(0.6,setCells)
  fields['substitutionals'][1].setValue(0.6)
  fields['substitutionals'][1].setValue(0.3,setCells)
  \<close>
  What \<open>elphf.makeFields\<close> puts into the two fields is not known; it is a parameter
  (\<open>init0\<close>, \<open>init1\<close>), overwritten by the first \<open>setValue\<close> of each field.
\<close>

definition mesh1D :: grid2D where
  "mesh1D = \<lparr>dx = 1, dy = 1, nx = 40, ny = 1\<rparr>"

definition L :: rat where
  "L = of_nat (nx mesh1D) * dx mesh1D"

definition setCells :: "nat list" where
  "setCells = getCells mesh1D (\<lambda>center. fst center > L / 2)"

definition input1D_fields ::
  "(nat \<Rightarrow> rat) \<Rightarrow> (nat \<Rightarrow> rat) \<Rightarrow> error + cellVariable \<times> cellVariable" where
  "input1D_fields init0 init1 =
     and_then (setValue (create mesh1D init0) (3 / 10) None) (\<lambda>c0.
     and_then (setValue c0 (6 / 10) (Some setCells)) (\<lambda>c0.
     and_then (setValue (create mesh1D init1) (6 / 10) None) (\<lambda>c1.
     and_then (setValue c1 (3 / 10) (Some setCells)) (\<lambda>c1.
     Inr (c0, c1)))))"

text \<open>The value both fields are compared with by \<open>allclose\<close>, lines 150 and 152.\<close>

definition allclose_target :: rat where
  "allclose_target = 45 / 100"

section \<open>Properties of MayaviViewer.plot\<close>

subsection \<open>The loop, unfolded\<close>

lemma poll_locked:
  "\<forall>j<n. in_window e (k + j) \<and> isfile_lock e (k + j) \<Longrightarrow> start = time_time e 0 \<Longrightarrow>
   poll self filename e start k False out = poll self filename e start (k + n) False out"
proof (induction n arbitrary: k)
  case 0
  then show ?case by simp
next
  case (Suc n)
  from Suc.prems(1) have here: "in_window e k" "isfile_lock e k"
    by (metis add.right_neutral zero_less_Suc)+
  have rest: "\<forall>j<n. in_window e (Suc k + j) \<and> isfile_lock e (Suc k + j)"
  proof (intro allI impI)
    fix j assume "j < n"
    then have "Suc j < Suc n" by simp
    with Suc.prems(1) have "in_window e (k + Suc j) \<and> isfile_lock e (k + Suc j)" by blast
    then show "in_window e (Suc k + j) \<and> isfile_lock e (Suc k + j)" by simp
  qed
  have "poll self filename e start k False out = poll self filename e start (Suc k) False out"
    using here Suc.prems(2) by (subst poll.simps) (simp add: in_window_def)
  also have "\<dots> = poll self filename e start (Suc k + n) False out"
    using Suc.IH [OF rest Suc.prems(2)] .
  finally show ?case by simp
qed

lemma poll_plotted:
  "poll self filename e start k True out = Some (True, out)"
  by (subst poll.simps) simp

lemma poll_deadline:
  "\<not> in_window e k \<Longrightarrow> start = time_time e 0 \<Longrightarrow>
   poll self filename e start k False out = Some (False, out)"
  by (subst poll.simps) (simp add: in_window_def)

lemma poll_unlocked:
  "in_window e k \<Longrightarrow> \<not> isfile_lock e k \<Longrightarrow> start = time_time e 0 \<Longrightarrow>
   poll self filename e start k False out = Some (True, out @ write_files self filename)"
  by (subst poll.simps) (simp add: in_window_def poll_plotted)

lemma plot_not_ready:
  assumes "\<forall>k<d. in_window e k \<and> isfile_lock e k" and "\<not> in_window e d"
  shows "plot self filename e = Some [Print ''viewer: NOT READY'']"
proof -
  have "poll self filename e (time_time e 0) 0 False [] =
        poll self filename e (time_time e 0) (0 + d) False []"
    using assms(1) by (intro poll_locked) simp_all
  also have "\<dots> = Some (False, [])"
    using assms(2) by (simp add: poll_deadline)
  finally show ?thesis by (simp add: plot_def)
qed

lemma plot_plotted:
  assumes "\<forall>k<p. in_window e k \<and> isfile_lock e k" and "in_window e p" and "\<not> isfile_lock e p"
  shows "plot self filename e = Some (write_files self filename)"
proof -
  have "poll self filename e (time_time e 0) 0 False [] =
        poll self filename e (time_time e 0) (0 + p) False []"
    using assms(1) by (intro poll_locked) simp_all
  also have "\<dots> = Some (True, [] @ write_files self filename)"
    using assms(2,3) by (simp add: poll_unlocked)
  finally show ?thesis by (simp add: plot_def)
qed

text \<open>
  Without an end of the window the busy wait never returns: when every clock reading stays
  within 10 seconds of \<open>start\<close> and every poll finds the lock file, \<open>plot\<close> has no result.
\<close>

lemma poll_never:
  assumes "poll self filename e start k plotted out = Some r"
  shows "\<not> (\<not> plotted \<and> start = time_time e 0 \<and> (\<forall>j. in_window e j \<and> isfile_lock e j))"
proof (rule poll.raw_induct
    [where P = "\<lambda>self filename e start k plotted out r.
          \<not> (\<not> plotted \<and> start = time_time e 0 \<and> (\<forall>j. in_window e j \<and> isfile_lock e j))",
     OF _ assms])
  fix poll' :: "'a viewer \<Rightarrow> string option \<Rightarrow> env \<Rightarrow> real \<Rightarrow> nat \<Rightarrow> bool \<Rightarrow> event list
    \<Rightarrow> (bool \<times> event list) option"
  fix self filename e start k plotted out r
  assume IH: "\<And>self filename e start k plotted out r.
      poll' self filename e start k plotted out = Some r \<Longrightarrow>
      \<not> (\<not> plotted \<and> start = time_time e 0 \<and> (\<forall>j. in_window e j \<and> isfile_lock e j))"
  assume body: "(if time_time e (Suc k) - start < 10 \<and> \<not> plotted then
        (if \<not> isfile_lock e k
         then poll' self filename e start (Suc k) True (out @ write_files self filename)
         else poll' self filename e start (Suc k) plotted out)
      else Some (plotted, out)) = Some r"
  show "\<not> (\<not> plotted \<and> start = time_time e 0 \<and> (\<forall>j. in_window e j \<and> isfile_lock e j))"
  proof
    assume inv: "\<not> plotted \<and> start = time_time e 0 \<and> (\<forall>j. in_window e j \<and> isfile_lock e j)"
    then have "time_time e (Suc k) - start < 10" "isfile_lock e k"
      by (simp_all add: in_window_def)
    with body inv have "poll' self filename e start (Suc k) plotted out = Some r"
      by simp
    from IH [OF this] inv show False by blast
  qed
qed

lemma plot_busy_wait:
  assumes "\<forall>j. in_window e j \<and> isfile_lock e j"
  shows "plot self filename e = None"
proof (cases "poll self filename e (time_time e 0) 0 False []")
  case None
  then show ?thesis by (simp add: plot_def)
next
  case (Some r)
  with poll_never [OF Some] assms show ?thesis by blast
qed

subsection \<open>The lock protocol of plot\<close>

text \<open>
  Claim C10. When every poll of the polling window finds the lock file (polls
  \<open>0, ..., d - 1\<close> are made and find it, and clock reading \<open>d + 1\<close> ends the window),
  \<open>plot\<close> returns normally, its only effect is printing \<open>viewer: NOT READY\<close>: it calls
  no sub-viewer and does not open the lock file. When some poll \<open>p\<close> of the window finds
  no lock file, \<open>plot\<close> returns normally and its effects are, once each and in this order:
  the cell viewer's plot to the cell file if there is a cell viewer, the face viewer's
  plot to the face file if there is a face viewer, the creation of the lock file, the
  write of \<open>filename\<close> into it if a filename was given, and its closing; nothing is printed.
\<close>

theorem plot_lock_protocol:
  "(\<forall>d. (\<forall>k<d. in_window e k \<and> isfile_lock e k) \<and> \<not> in_window e d \<longrightarrow>
        plot self filename e = Some [Print ''viewer: NOT READY''])
   \<and> (\<forall>p. (\<forall>k<p. in_window e k \<and> isfile_lock e k) \<and> in_window e p \<and> \<not> isfile_lock e p \<longrightarrow>
        plot self filename e =
          Some ((case vtkCellViewer self of None \<Rightarrow> [] | Some _ \<Rightarrow> [CellPlot (vtkcellfname self)]) @
                (case vtkFaceViewer self of None \<Rightarrow> [] | Some _ \<Rightarrow> [FacePlot (vtkfacefname self)]) @
                [LockOpen (vtklockfname self)] @
                (case filename of None \<Rightarrow> [] | Some f \<Rightarrow> [LockWrite f]) @
                [LockClose]))"
proof (intro conjI allI impI)
  fix d assume "(\<forall>k<d. in_window e k \<and> isfile_lock e k) \<and> \<not> in_window e d"
  then show "plot self filename e = Some [Print ''viewer: NOT READY'']"
    using plot_not_ready by blast
next
  fix p assume "(\<forall>k<p. in_window e k \<and> isfile_lock e k) \<and> in_window e p \<and> \<not> isfile_lock e p"
  then have "plot self filename e = Some (write_files self filename)"
    using plot_plotted by blast
  then show "plot self filename e =
          Some ((case vtkCellViewer self of None \<Rightarrow> [] | Some _ \<Rightarrow> [CellPlot (vtkcellfname self)]) @
                (case vtkFaceViewer self of None \<Rightarrow> [] | Some _ \<Rightarrow> [FacePlot (vtkfacefname self)]) @
                [LockOpen (vtklockfname self)] @
                (case filename of None \<Rightarrow> [] | Some f \<Rightarrow> [LockWrite f]) @
                [LockClose])"
    by (simp add: write_files_def)
qed

text \<open>
  Two runs of a viewer with a cell viewer and no face viewer, the clock read every four
  seconds. In the first the lock file is always there: polls 0 and 1 find it and the
  third reading, at 12 seconds, ends the window. In the second the lock file is gone at
  poll 1.
\<close>

theorem plot_lock_protocol_witness:
  "plot \<lparr>vtkcellfname = ''/tmp/v/cell.vtk'', vtkfacefname = ''/tmp/v/face.vtk'',
          vtklockfname = ''/tmp/v/lock'', vtkCellViewer = Some (), vtkFaceViewer = None\<rparr>
        (Some ''out.png'')
        \<lparr>time_time = (\<lambda>k. 4 * real k), isfile_lock = (\<lambda>k. True)\<rparr>
     = Some [Print ''viewer: NOT READY'']
   \<and> plot \<lparr>vtkcellfname = ''/tmp/v/cell.vtk'', vtkfacefname = ''/tmp/v/face.vtk'',
          vtklockfname = ''/tmp/v/lock'', vtkCellViewer = Some (), vtkFaceViewer = None\<rparr>
        (Some ''out.png'')
        \<lparr>time_time = (\<lambda>k. 4 * real k), isfile_lock = (\<lambda>k. k < 1)\<rparr>
     = Some [CellPlot ''/tmp/v/cell.vtk'', LockOpen ''/tmp/v/lock'', LockWrite ''out.png'',
             LockClose]"
proof -
  let ?v = "\<lparr>vtkcellfname = ''/tmp/v/cell.vtk'', vtkfacefname = ''/tmp/v/face.vtk'',
          vtklockfname = ''/tmp/v/lock'', vtkCellViewer = Some (), vtkFaceViewer = None\<rparr>"
  let ?e1 = "\<lparr>time_time = (\<lambda>k. 4 * real k), isfile_lock = (\<lambda>k. True)\<rparr>"
  let ?e2 = "\<lparr>time_time = (\<lambda>k. 4 * real k), isfile_lock = (\<lambda>k. k < 1)\<rparr>"
  have w1: "\<forall>k<2. in_window ?e1 k \<and> isfile_lock ?e1 k"
    by (simp add: in_window_def less_Suc_eq numeral_2_eq_2)
  have d1: "\<not> in_window ?e1 2"
    by (simp add: in_window_def)
  have w2: "\<forall>k<1. in_window ?e2 k \<and> isfile_lock ?e2 k"
    by (simp add: in_window_def)
  have p2: "in_window ?e2 1 \<and> \<not> isfile_lock ?e2 1"
    by (simp add: in_window_def)
  from plot_lock_protocol [of ?e1 ?v "Some ''out.png''"] w1 d1
  have r1: "plot ?v (Some ''out.png'') ?e1 = Some [Print ''viewer: NOT READY'']"
    by blast
  from plot_lock_protocol [of ?e2 ?v "Some ''out.png''"] w2 p2
  have r2: "plot ?v (Some ''out.png'') ?e2 =
      Some ((case vtkCellViewer ?v of None \<Rightarrow> [] | Some _ \<Rightarrow> [CellPlot (vtkcellfname ?v)]) @
                (case vtkFaceViewer ?v of None \<Rightarrow> [] | Some _ \<Rightarrow> [FacePlot (vtkfacefname ?v)]) @
                [LockOpen (vtklockfname ?v)] @
                (case Some ''out.png'' of None \<Rightarrow> [] | Some f \<Rightarrow> [LockWrite f]) @
                [LockClose])"
    by blast
  from r1 r2 show ?thesis by simp
qed

section \<open>Properties of the input1D.py example\<close>

lemma filter_upt_ge: "a \<le> n \<Longrightarrow> [i \<leftarrow> [0..<n]. a \<le> i] = [a..<n]"
proof (induction n)
  case 0
  then show ?case by simp
next
  case (Suc n)
  show ?case
  proof (cases "a \<le> n")
    case True
    with Suc.IH show ?thesis by simp
  next
    case False
    with Suc.prems have "a = Suc n" by simp
    then have "[i \<leftarrow> [0..<n]. a \<le> i] = []"
      by (auto simp: filter_empty_conv)
    with \<open>a = Suc n\<close> show ?thesis by simp
  qed
qed

lemma right_half:
  assumes "i < 40"
  shows "L / 2 < fst (getCenter mesh1D i) \<longleftrightarrow> 20 \<le> i"
proof -
  have c: "fst (getCenter mesh1D i) = of_nat i + 1 / 2"
    using assms by (simp add: getCenter_def mesh1D_def)
  have l: "L / 2 = 20"
    by (simp add: L_def mesh1D_def)
  show ?thesis
  proof (cases "20 \<le> i")
    case True
    from of_nat_mono [OF True, where 'a = rat] have "(20::rat) \<le> of_nat i" by simp
    with True show ?thesis unfolding c l by simp
  next
    case False
    then have "i \<le> 19" by simp
    from of_nat_mono [OF this, where 'a = rat] have "of_nat i \<le> (19::rat)" by simp
    with False show ?thesis unfolding c l by simp
  qed
qed

lemma setCells_eq: "setCells = [20..<40]"
proof -
  have "setCells = [i \<leftarrow> [0..<40]. L / 2 < fst (getCenter mesh1D i)]"
    by (simp only: setCells_def getCells_def getNumberOfCells_def mesh1D_def
        grid2D.simps mult_1_right)
  also have "\<dots> = [i \<leftarrow> [0..<40]. 20 \<le> i]"
  proof (rule filter_cong [OF refl])
    fix i :: nat assume "i \<in> set [0..<40]"
    then have "i < 40" by simp
    then show "L / 2 < fst (getCenter mesh1D i) \<longleftrightarrow> 20 \<le> i" by (rule right_half)
  qed
  also have "\<dots> = [20..<40]"
    by (rule filter_upt_ge) simp
  finally show ?thesis .
qed

lemma average_unit_volumes:
  "var \<noteq> [] \<Longrightarrow> volumeWeightedAverage mesh1D var = sum_list var / of_nat (length var)"
proof -
  have vol: "getCellVolume mesh1D i = 1" for i
    by (simp add: getCellVolume_def mesh1D_def)
  have "(\<Sum>i \<leftarrow> [0..<length var]. var ! i * getCellVolume mesh1D i) = sum_list (map ((!) var) [0..<length var])"
    by (simp add: vol)
  also have "\<dots> = sum_list var"
    by (simp add: map_nth)
  finally have num: "(\<Sum>i \<leftarrow> [0..<length var]. var ! i * getCellVolume mesh1D i) = sum_list var" .
  have den: "(\<Sum>i \<leftarrow> [0..<length var]. getCellVolume mesh1D i) = of_nat (length var)"
    by (simp add: vol sum_list_triv)
  show ?thesis
    unfolding volumeWeightedAverage_def num den ..
qed

lemma len_create: "length (create mesh1D init) = 40"
  by (simp add: create_def getNumberOfCells_def mesh1D_def)

lemma setValue_all: "setValue var v None = Inr (replicate (length var) v)"
  by (simp add: setValue_def map_replicate_const)

lemma foldl_update_upt:
  "a \<le> b \<Longrightarrow> b \<le> length xs \<Longrightarrow>
   foldl (\<lambda>xs i. xs[i := v]) xs [a..<b] = take a xs @ replicate (b - a) v @ drop b xs"
proof (induction "b - a" arbitrary: b)
  case 0
  then show ?case by simp
next
  case (Suc n)
  then obtain b' where b: "b = Suc b'" "a \<le> b'" "n = b' - a" "b' < length xs"
    by (cases b) auto
  have "foldl (\<lambda>xs i. xs[i := v]) xs [a..<b] =
        (take a xs @ replicate (b' - a) v @ drop b' xs)[b' := v]"
    using Suc.hyps(1)[of b'] b by simp
  also have "\<dots> = take a xs @ replicate (b' - a) v @ (drop b' xs)[0 := v]"
    using b by (simp add: list_update_append)
  also have "(drop b' xs)[0 := v] = v # drop (Suc b') xs"
    using b by (metis Cons_nth_drop_Suc list_update_code(2))
  also have "take a xs @ replicate (b' - a) v @ v # drop (Suc b') xs =
             take a xs @ replicate (b - a) v @ drop b xs"
    using b by (simp add: Suc_diff_le replicate_append_same)
  finally show ?case .
qed

lemma setValue_setCells:
  "length var = 40 \<Longrightarrow> setValue var v (Some setCells) = Inr (take 20 var @ replicate 20 v)"
proof -
  assume len: "length var = 40"
  have "foldl (\<lambda>xs i. xs[i := v]) var [20..<40] =
        take 20 var @ replicate (40 - 20) v @ drop 40 var"
    using len by (intro foldl_update_upt) simp_all
  then have upd: "foldl (\<lambda>xs i. xs[i := v]) var [20..<40] = take 20 var @ replicate 20 v"
    using len by simp
  have "list_all (\<lambda>i. i < length var) [20..<40]"
    using len by (simp add: list_all_iff)
  then show ?thesis
    unfolding setValue_def setCells_eq using upd by simp
qed

lemma input1D_fields_eq:
  "input1D_fields init0 init1 =
     Inr (replicate 20 (3 / 10) @ replicate 20 (6 / 10),
          replicate 20 (6 / 10) @ replicate 20 (3 / 10))"
  by (simp add: input1D_fields_def and_then_def setValue_all setValue_setCells len_create)

lemma avg0: "volumeWeightedAverage mesh1D (replicate 20 (3 / 10) @ replicate 20 (6 / 10)) = 45 / 100"
  by (subst average_unit_volumes) (simp_all add: sum_list_replicate)

lemma avg1: "volumeWeightedAverage mesh1D (replicate 20 (6 / 10) @ replicate 20 (3 / 10)) = 45 / 100"
  by (subst average_unit_volumes) (simp_all add: sum_list_replicate)

lemma vols: "map (getCellVolume mesh1D) [0..<getNumberOfCells mesh1D] = replicate 40 1"
proof -
  have "getCellVolume mesh1D = (\<lambda>_. 1)"
    by (rule ext) (simp add: getCellVolume_def mesh1D_def)
  then show ?thesis
    by (simp add: getNumberOfCells_def mesh1D_def map_replicate_const)
qed

text \<open>
  Claim C9. After the four \<open>setValue\<close> calls of \<open>input1D.py\<close>, whatever the fields
  held before: the first species is 0.3 on the first 20 cells and 0.6 on the last 20,
  the second species 0.6 and 0.3; all 40 cells have volume 1; the volume-weighted average
  of each species is exactly 0.45; the two species add up to exactly 0.9 on every cell;
  and the value that \<open>allclose\<close> compares with at the end is that average.
\<close>

theorem input1D_initial_distributions:
  "(case input1D_fields init0 init1 of
      Inl err \<Rightarrow> False
    | Inr (c0, c1) \<Rightarrow>
        c0 = replicate 20 (3 / 10) @ replicate 20 (6 / 10)
      \<and> c1 = replicate 20 (6 / 10) @ replicate 20 (3 / 10)
      \<and> map (getCellVolume mesh1D) [0..<getNumberOfCells mesh1D] = replicate 40 1
      \<and> volumeWeightedAverage mesh1D c0 = 45 / 100
      \<and> volumeWeightedAverage mesh1D c1 = 45 / 100
      \<and> map2 (+) c0 c1 = replicate 40 (9 / 10)
      \<and> volumeWeightedAverage mesh1D c0 = allclose_target
      \<and> volumeWeightedAverage mesh1D c1 = allclose_target)"
proof -
  have sums: "map2 (+) (replicate 20 (3 / 10) @ replicate 20 (6 / 10))
                       (replicate 20 (6 / 10) @ replicate 20 (3 / 10)) = replicate 40 (9 / 10 :: rat)"
    by (simp flip: replicate_add)
  show ?thesis
    unfolding input1D_fields_eq sum.case prod.case allclose_target_def
    by (intro conjI refl avg0 avg1 vols sums)
qed

end
